theory Spec2Isabelle
  imports Main
begin

section \<open>Go runtime and library functions the packages call\<close>

text \<open>
  Strings are byte lists, as Go's \<open>len\<close> and indexing see them. Every run-time panic
  of the source is a value: a function that can panic returns \<open>panic + 'a\<close>.
\<close>

datatype panic =
    ReadFileError
  | IndexOutOfRange
  | ReflectIndexOutOfBounds
  | TypeAssertionFailed
  | NilDereference

definition isUpperAZ :: "char \<Rightarrow> bool" where
  "isUpperAZ c = (let n = (of_char c :: nat) in 65 \<le> n \<and> n \<le> 90)"

definition isLowerAZ :: "char \<Rightarrow> bool" where
  "isLowerAZ c = (let n = (of_char c :: nat) in 97 \<le> n \<and> n \<le> 122)"

definition toUpperChar :: "char \<Rightarrow> char" where
  "toUpperChar c = (if isLowerAZ c then char_of ((of_char c :: nat) - 32) else c)"

definition toLowerChar :: "char \<Rightarrow> char" where
  "toLowerChar c = (if isUpperAZ c then char_of ((of_char c :: nat) + 32) else c)"

text \<open>
  \<open>strings.ToUpper\<close> and \<open>strings.ToLower\<close> map the letters of every script, by
  tables of the Go library. A function of the packages that calls one of them takes it as
  its first argument, named \<open>ToUpper\<close> or \<open>ToLower\<close>: a theorem stated with that
  argument holds for every mapping of strings, the library's included. On strings of
  ASCII bytes the library's functions are the two below; the concrete inputs, all ASCII,
  are evaluated with them.
\<close>

definition ToUpper_ascii :: "string \<Rightarrow> string" where
  "ToUpper_ascii s = map toUpperChar s"

definition ToLower_ascii :: "string \<Rightarrow> string" where
  "ToLower_ascii s = map toLowerChar s"

text \<open>\<open>strings.Index(s, sep)\<close> for a one-byte separator: the first position, or -1.\<close>

definition Index :: "string \<Rightarrow> char \<Rightarrow> int" where
  "Index s sep = (if sep \<in> set s then int (length (takeWhile (\<lambda>c. c \<noteq> sep) s)) else - 1)"

text \<open>\<open>strings.Split(s, sep)\<close> for a one-byte separator; the result is never empty.\<close>

fun Split :: "string \<Rightarrow> char \<Rightarrow> string list" where
  "Split [] sep = [[]]"
| "Split (c # cs) sep =
     (if c = sep then [] # Split cs sep
      else (case Split cs sep of
              w # ws \<Rightarrow> (c # w) # ws
            | [] \<Rightarrow> [[c]]))"

text \<open>\<open>strings.Join(elems, sep)\<close>.\<close>

fun Join :: "string list \<Rightarrow> string \<Rightarrow> string" where
  "Join [] sep = []"
| "Join [w] sep = w"
| "Join (w # v # ws) sep = w @ sep @ Join (v # ws) sep"

definition isSpace :: "char \<Rightarrow> bool" where
  "isSpace c = (let n = (of_char c :: nat) in (9 \<le> n \<and> n \<le> 13) \<or> n = 32)"

text \<open>\<open>strings.TrimSpace\<close>, on the ASCII white space.\<close>

definition TrimSpace :: "string \<Rightarrow> string" where
  "TrimSpace s = rev (dropWhile isSpace (rev (dropWhile isSpace s)))"

text \<open>\<open>strings.NewReplacer("[", "", "]", "").Replace\<close>: both brackets are deleted.\<close>

definition Replace :: "string \<Rightarrow> string" where
  "Replace s = filter (\<lambda>c. c \<noteq> CHR ''['' \<and> c \<noteq> CHR '']'') s"

text \<open>
  \<open>filepath.Base\<close> with \<open>/\<close> as the separator: trailing separators are removed, the
  last element is kept, the empty path is \<open>.\<close> and a path of separators is \<open>/\<close>.
\<close>

definition Base :: "string \<Rightarrow> string" where
  "Base path =
     (if path = [] then ''.''
      else (let p = rev (dropWhile (\<lambda>c. c = CHR ''/'') (rev path));
                e = rev (takeWhile (\<lambda>c. c \<noteq> CHR ''/'') (rev p))
            in if e = [] then ''/'' else e))"

text \<open>
  \<open>regexp.MustCompile(`[A-Z]+[^A-Z]*|[^A-Z]+`).FindAllString(s, -1)\<close>: the successive
  leftmost matches. At an upper-case letter the first alternative takes the whole run of
  upper-case letters and the run of other bytes after it; elsewhere the second alternative
  takes the run of other bytes.
\<close>

function FindAllString :: "string \<Rightarrow> string list" where
  "FindAllString [] = []"
| "FindAllString (c # cs) =
     (if isUpperAZ c
      then (let r = dropWhile isUpperAZ cs
            in (c # takeWhile isUpperAZ cs @ takeWhile (\<lambda>x. \<not> isUpperAZ x) r)
               # FindAllString (dropWhile (\<lambda>x. \<not> isUpperAZ x) r))
      else (c # takeWhile (\<lambda>x. \<not> isUpperAZ x) cs)
           # FindAllString (dropWhile (\<lambda>x. \<not> isUpperAZ x) cs))"
  by pat_completeness auto
termination
proof (relation "measure length")
  show "wf (measure length)" by simp
next
  fix c :: char and cs r :: string
  assume "r = dropWhile isUpperAZ cs"
  have "length (dropWhile (\<lambda>x. \<not> isUpperAZ x) r) \<le> length r"
    by (rule length_dropWhile_le)
  also have "length r \<le> length cs"
    unfolding \<open>r = dropWhile isUpperAZ cs\<close> by (rule length_dropWhile_le)
  finally show "(dropWhile (\<lambda>x. \<not> isUpperAZ x) r, c # cs) \<in> measure length"
    by simp
next
  fix c :: char and cs :: string
  have "length (dropWhile (\<lambda>x. \<not> isUpperAZ x) cs) \<le> length cs"
    by (rule length_dropWhile_le)
  then show "(dropWhile (\<lambda>x. \<not> isUpperAZ x) cs, c # cs) \<in> measure length"
    by simp
qed

text \<open>
  \<open>regexp.MustCompile(`\(([^()]+)\)`).FindAllStringSubmatch(s, 1)\<close>: the group of the
  leftmost match, if there is one. A match starts at an opening parenthesis that is
  followed by a non-empty run of bytes other than parentheses and then by a closing one.
\<close>

definition notParen :: "char \<Rightarrow> bool" where
  "notParen c = (c \<noteq> CHR ''('' \<and> c \<noteq> CHR '')'')"

fun FindSubmatch :: "string \<Rightarrow> string option" where
  "FindSubmatch [] = None"
| "FindSubmatch (c # cs) =
     (if c = CHR ''(''
      then (let inner = takeWhile notParen cs
            in (case dropWhile notParen cs of
                  d # _ \<Rightarrow> if inner \<noteq> [] \<and> d = CHR '')'' then Some inner
                           else FindSubmatch cs
                | [] \<Rightarrow> FindSubmatch cs))
      else FindSubmatch cs)"

text \<open>Indexing a slice: Go panics outside \<open>0 \<le> i < len\<close>.\<close>

definition index :: "'a list \<Rightarrow> int \<Rightarrow> panic + 'a" where
  "index xs i = (if 0 \<le> i \<and> i < int (length xs) then Inr (xs ! nat i) else Inl IndexOutOfRange)"

subsection \<open>Reflection and the symbol table\<close>

datatype Kind =
    KInvalid | KBool | KInt | KInt8 | KInt16 | KInt32 | KInt64
  | KUint | KUint8 | KUint16 | KUint32 | KUint64 | KUintptr
  | KFloat32 | KFloat64 | KComplex64 | KComplex128
  | KArray | KChan | KFunc | KInterface | KMap | KPtr | KSlice | KString | KStruct | KUnsafePointer

fun Kind_String :: "Kind \<Rightarrow> string" where
  "Kind_String KInvalid = ''invalid''"
| "Kind_String KBool = ''bool''"
| "Kind_String KInt = ''int''"
| "Kind_String KInt8 = ''int8''"
| "Kind_String KInt16 = ''int16''"
| "Kind_String KInt32 = ''int32''"
| "Kind_String KInt64 = ''int64''"
| "Kind_String KUint = ''uint''"
| "Kind_String KUint8 = ''uint8''"
| "Kind_String KUint16 = ''uint16''"
| "Kind_String KUint32 = ''uint32''"
| "Kind_String KUint64 = ''uint64''"
| "Kind_String KUintptr = ''uintptr''"
| "Kind_String KFloat32 = ''float32''"
| "Kind_String KFloat64 = ''float64''"
| "Kind_String KComplex64 = ''complex64''"
| "Kind_String KComplex128 = ''complex128''"
| "Kind_String KArray = ''array''"
| "Kind_String KChan = ''chan''"
| "Kind_String KFunc = ''func''"
| "Kind_String KInterface = ''interface''"
| "Kind_String KMap = ''map''"
| "Kind_String KPtr = ''ptr''"
| "Kind_String KSlice = ''slice''"
| "Kind_String KString = ''string''"
| "Kind_String KStruct = ''struct''"
| "Kind_String KUnsafePointer = ''unsafe.Pointer''"

text \<open>A \<open>reflect.Type\<close> of a parameter: what \<open>String()\<close> and \<open>Kind()\<close> return.\<close>

record rtype =
  type_String :: string
  type_Kind :: Kind

text \<open>
  A function value, as the packages observe it: its reflected parameter and result types
  and variadic flag, its entry address, the symbol name \<open>runtime.FuncForPC\<close> gives, and
  the file and line of \<open>FileLine\<close> with what \<open>ioutil.ReadFile\<close> returns for that file
  (\<open>None\<close> when the read fails).
\<close>

record func =
  f_In :: "rtype list"
  f_Out :: "rtype list"
  f_IsVariadic :: bool
  f_Pointer :: nat
  f_Name :: string
  f_File :: string
  f_ReadFile :: "string option"
  f_Line :: int

text \<open>\<open>reflect.Type.In(i)\<close> panics outside \<open>0 \<le> i < NumIn\<close>.\<close>

definition In :: "func \<Rightarrow> int \<Rightarrow> panic + rtype" where
  "In fn i = (if 0 \<le> i \<and> i < int (length (f_In fn)) then Inr (f_In fn ! nat i)
              else Inl ReflectIndexOutOfBounds)"

text \<open>
  The text of the line a function was declared on: the file is read, split at the line
  feeds and indexed with \<open>line - 1\<close>.
\<close>

definition source_line :: "func \<Rightarrow> panic + string" where
  "source_line fn =
     (case f_ReadFile fn of
        None \<Rightarrow> Inl ReadFileError
      | Some b \<Rightarrow> index (Split b (CHR 0x0A)) (f_Line fn - 1))"

section \<open>Package cli: descriptors and the usage banner\<close>

definition lineLength :: nat where
  "lineLength = 79"

record cli_Argument =
  arg_Kind :: Kind
  arg_Parameter :: string
  arg_Pointer :: nat
  arg_Position :: int
  arg_Name :: string
  arg_Slice :: bool
  arg_Value :: string
  arg_Varadict :: bool

record cli_Function =
  fn_Arguments :: "cli_Argument list"
  fn_F :: func
  fn_Line :: int
  fn_Path :: string
  fn_Pointer :: nat
  fn_Name :: string
  fn_Varadict :: bool

text \<open>\<open>NewArgument(i, pointer, parameter, t)\<close>; \<open>t.In(i)\<close> may panic.\<close>

definition cli_NewArgument :: "int \<Rightarrow> nat \<Rightarrow> string \<Rightarrow> func \<Rightarrow> panic + cli_Argument" where
  "cli_NewArgument i pointer parameter t =
     (case In t i of
        Inl e \<Rightarrow> Inl e
      | Inr properties \<Rightarrow>
          (let value = Replace (type_String properties);
               slice = (if Kind_String (type_Kind properties) = ''slice'' then True else False);
               substrings = Split (TrimSpace parameter) (CHR '' '')
           in (case index substrings 0 of
                 Inl e \<Rightarrow> Inl e
               | Inr name \<Rightarrow>
                   Inr \<lparr>arg_Kind = type_Kind properties,
                        arg_Parameter = parameter,
                        arg_Pointer = pointer,
                        arg_Position = i,
                        arg_Name = name,
                        arg_Slice = slice,
                        arg_Value = value,
                        arg_Varadict = f_IsVariadic t\<rparr>)))"

text \<open>
  The display name of \<open>NewFunction\<close>: the base of the symbol name, cut after its first
  dot (\<open>strings.Index\<close> is -1 without a dot, and nothing is cut), split by the regular
  expression, joined with hyphens when there is a token, and lower-cased.
\<close>

definition cli_displayName :: "(string \<Rightarrow> string) \<Rightarrow> string \<Rightarrow> string" where
  "cli_displayName ToLower raw =
     (let name = Base raw;
          name = drop (nat (Index name (CHR ''.'') + 1)) name;
          substrings = FindAllString name;
          name = (if length substrings \<noteq> 0 then Join substrings ''-'' else name)
      in ToLower name)"

text \<open>The loop \<open>for i := 0; i < NumIn(); i++\<close> of \<open>NewFunction\<close>.\<close>

function cli_NewFunction_loop ::
  "func \<Rightarrow> string list \<Rightarrow> nat \<Rightarrow> cli_Argument list \<Rightarrow> panic + cli_Argument list" where
  "cli_NewFunction_loop fn parameters i arguments =
     (if i < length (f_In fn)
      then (case index parameters (int i) of
              Inl e \<Rightarrow> Inl e
            | Inr parameter \<Rightarrow>
                (case cli_NewArgument (int i) (f_Pointer fn) parameter fn of
                   Inl e \<Rightarrow> Inl e
                 | Inr a \<Rightarrow> cli_NewFunction_loop fn parameters (Suc i) (arguments @ [a])))
      else Inr arguments)"
  by pat_completeness auto
termination
  by (relation "measure (\<lambda>(fn, parameters, i, arguments). length (f_In fn) - i)") auto

definition cli_NewFunction :: "(string \<Rightarrow> string) \<Rightarrow> func \<Rightarrow> panic + cli_Function" where
  "cli_NewFunction ToLower fn =
     (case source_line fn of
        Inl e \<Rightarrow> Inl e
      | Inr substring \<Rightarrow>
          (case (case FindSubmatch substring of
                   None \<Rightarrow> Inr []
                 | Some m \<Rightarrow> cli_NewFunction_loop fn (Split m (CHR '','')) 0 []) of
             Inl e \<Rightarrow> Inl e
           | Inr arguments \<Rightarrow>
               Inr \<lparr>fn_Arguments = arguments,
                    fn_F = fn,
                    fn_Line = f_Line fn,
                    fn_Path = f_File fn,
                    fn_Pointer = f_Pointer fn,
                    fn_Name = cli_displayName ToLower (f_Name fn),
                    fn_Varadict = f_IsVariadic fn\<rparr>))"

definition GetArgumentString :: "cli_Argument \<Rightarrow> string" where
  "GetArgumentString argument =
     (if arg_Varadict argument
      then arg_Name argument @ '' [...'' @ arg_Value argument @ '']''
      else if arg_Slice argument
      then arg_Name argument @ ''=[...'' @ arg_Value argument @ '']''
      else arg_Name argument @ ''=<'' @ arg_Value argument @ ''>'')"

definition GetFunctionString :: "(string \<Rightarrow> string) \<Rightarrow> cli_Function \<Rightarrow> string" where
  "GetFunctionString ToLower function =
     (let substrings = map (\<lambda>argument. ToLower (GetArgumentString argument))
                           (fn_Arguments function);
          usage = Join substrings '', ''
      in if length usage \<noteq> 0 then fn_Name function @ '' ['' @ usage @ '']''
         else ''--'' @ fn_Name function)"

text \<open>The loop of \<open>WrapDescription\<close> over the words, on the pair \<open>(cursor, about)\<close>.\<close>

fun WrapDescription_loop :: "string list \<Rightarrow> nat \<Rightarrow> string \<Rightarrow> string" where
  "WrapDescription_loop [] cursor about = about"
| "WrapDescription_loop (word # ws) cursor about =
     (let cursor = cursor + length word + 1;
          about = about @ word @ '' ''
      in if cursor \<ge> lineLength
         then WrapDescription_loop ws 0 (about @ [CHR 0x0A])
         else WrapDescription_loop ws cursor about)"

definition WrapDescription :: "string \<Rightarrow> string" where
  "WrapDescription paragraph = WrapDescription_loop (Split paragraph (CHR '' '')) 0 []"

text \<open>
  The first loop of \<open>WrapFunction\<close>: \<open>paragraphs\<close> is kept as its earlier lines and its
  last line, which the loop index \<open>i\<close> always denotes.
\<close>

fun WrapFunction_pack ::
  "(string \<Rightarrow> string) \<Rightarrow> nat \<Rightarrow> cli_Function list \<Rightarrow> string list list \<Rightarrow> string list \<Rightarrow> string list list" where
  "WrapFunction_pack ToLower offset [] earlier cur = earlier @ [cur]"
| "WrapFunction_pack ToLower offset (function # fs) earlier cur =
     (let option = ''['' @ GetFunctionString ToLower function @ '']'';
          cursor = length (Join cur '' '') + offset + length option
      in if cursor \<ge> lineLength
         then WrapFunction_pack ToLower offset fs (earlier @ [cur]) [option]
         else WrapFunction_pack ToLower offset fs earlier (cur @ [option]))"

text \<open>The second loop: each later line after a line feed, a space and the padding.\<close>

fun WrapFunction_lines :: "nat \<Rightarrow> string list list \<Rightarrow> string \<Rightarrow> string" where
  "WrapFunction_lines offset [] template = template"
| "WrapFunction_lines offset (sentence # ps) template =
     WrapFunction_lines offset ps
       (template @ ([CHR 0x0A] @ '' '' @ replicate offset (CHR '' '') @ Join sentence '' ''))"

definition WrapFunction :: "(string \<Rightarrow> string) \<Rightarrow> string \<Rightarrow> cli_Function list \<Rightarrow> string" where
  "WrapFunction ToLower name functions =
     (let prefix = ''usage: '' @ name;
          offset = length prefix;
          paragraphs = WrapFunction_pack ToLower offset functions [] [];
          first = hd paragraphs;
          template = prefix @ '' ['' @ Join first '' ''
      in WrapFunction_lines offset (tl paragraphs) template @ '']'')"

definition WrapUse :: "(string \<Rightarrow> string) \<Rightarrow> string \<Rightarrow> string \<Rightarrow> cli_Function list \<Rightarrow> string" where
  "WrapUse ToLower name description functions =
     WrapDescription description @ [CHR 0x0A, CHR 0x0A] @ WrapFunction ToLower name functions"

record Program =
  prog_Description :: string
  prog_Functions :: "cli_Function list"
  prog_Name :: string
  prog_Use :: string

text \<open>The loop of \<open>NewProgram\<close>; a panic of \<open>NewFunction\<close> ends it.\<close>

fun NewProgram_loop :: "(string \<Rightarrow> string) \<Rightarrow> func list \<Rightarrow> cli_Function list \<Rightarrow> panic + cli_Function list" where
  "NewProgram_loop ToLower [] f = Inr f"
| "NewProgram_loop ToLower (function # fs) f =
     (case cli_NewFunction ToLower function of
        Inl e \<Rightarrow> Inl e
      | Inr d \<Rightarrow> NewProgram_loop ToLower fs (f @ [d]))"

definition NewProgram :: "(string \<Rightarrow> string) \<Rightarrow> string \<Rightarrow> string \<Rightarrow> func list \<Rightarrow> panic + Program" where
  "NewProgram ToLower name description functions =
     (case NewProgram_loop ToLower functions [] of
        Inl e \<Rightarrow> Inl e
      | Inr f \<Rightarrow>
          Inr \<lparr>prog_Description = description,
               prog_Functions = f,
               prog_Name = name,
               prog_Use = WrapUse ToLower name description f\<rparr>)"

section \<open>Package x: descriptors, the registry and the runner\<close>

text \<open>
  A pointer that may be nil is an \<open>option\<close>. \<open>Arguments\<close> is a slice of pointers, and
  \<open>Functions\<close> maps the upper-cased name to the descriptor.
\<close>

record x_Argument =
  xarg_Address :: nat
  xarg_Kind :: Kind
  xarg_Parameter :: string
  xarg_Pointer :: bool
  xarg_Position :: int
  xarg_Name :: string
  xarg_Slice :: bool
  xarg_Value :: string
  xarg_Variadic :: bool

record Arg =
  Arg_Argument :: "x_Argument option"

type_synonym Arguments = "x_Argument option list"

record Deconstruct =
  dec_Parameters :: "string list"
  dec_Pointer :: nat
  dec_Name :: string
  dec_Type :: func
  dec_Variadic :: bool

record x_Function =
  xfn_Arguments :: Arguments
  xfn_Empty :: bool
  xfn_F :: func
  xfn_Length :: int
  xfn_Pointer :: nat
  xfn_Name :: string
  xfn_Variadic :: bool

type_synonym Functions = "string \<rightharpoonup> x_Function"

record Runner =
  Runner_Functions :: Functions

definition NewArg :: "x_Argument option \<Rightarrow> Arg option" where
  "NewArg argument = Some \<lparr>Arg_Argument = argument\<rparr>"

definition x_NewArgument ::
  "string \<Rightarrow> string \<Rightarrow> int \<Rightarrow> nat \<Rightarrow> bool \<Rightarrow> Kind \<Rightarrow> x_Argument" where
  "x_NewArgument name value position pointer variadic kind =
     \<lparr>xarg_Address = pointer,
      xarg_Kind = kind,
      xarg_Parameter = [],
      xarg_Pointer = (Index value (CHR ''*'') \<noteq> - 1),
      xarg_Position = position,
      xarg_Name = name,
      xarg_Slice = (Kind_String kind = ''slice''),
      xarg_Value = Replace value,
      xarg_Variadic = variadic\<rparr>"

text \<open>
  The loop of \<open>NewArguments\<close> over \<open>parameters\<close> from index \<open>i\<close>; \<open>reflection.In(i)\<close>
  panics when there are more parameters than reflected types.
\<close>

fun NewArguments_loop ::
  "func \<Rightarrow> nat \<Rightarrow> bool \<Rightarrow> string list \<Rightarrow> nat \<Rightarrow> Arguments \<Rightarrow> panic + Arguments" where
  "NewArguments_loop reflection pointer variadic [] i arguments = Inr arguments"
| "NewArguments_loop reflection pointer variadic (parameter # ps) i arguments =
     (case In reflection (int i) of
        Inl e \<Rightarrow> Inl e
      | Inr t \<Rightarrow>
          (case index (Split parameter (CHR '' '')) 0 of
             Inl e \<Rightarrow> Inl e
           | Inr name \<Rightarrow>
               NewArguments_loop reflection pointer variadic ps (Suc i)
                 (arguments @ [Some (x_NewArgument name (type_String t) (int i) pointer
                                       variadic (type_Kind t))])))"

definition NewArguments :: "func \<Rightarrow> nat \<Rightarrow> bool \<Rightarrow> string list \<Rightarrow> panic + Arguments" where
  "NewArguments reflection pointer variadic parameters =
     NewArguments_loop reflection pointer variadic parameters 0 []"

text \<open>\<open>NewParameters(file, line)\<close>: nil when the line has no parenthesised list.\<close>

definition NewParameters :: "func \<Rightarrow> panic + string list" where
  "NewParameters fn =
     (case source_line fn of
        Inl e \<Rightarrow> Inl e
      | Inr substring \<Rightarrow>
          (case FindSubmatch substring of
             None \<Rightarrow> Inr []
           | Some m \<Rightarrow> Inr (Split m (CHR '',''))))"

text \<open>The loop of \<open>NewDeconstruct\<close> that cuts the name after each dot in turn.\<close>

function NewDeconstruct_name :: "string \<Rightarrow> string" where
  "NewDeconstruct_name name =
     (let i = Index name (CHR ''.'')
      in if i > - 1 then NewDeconstruct_name (drop (nat (i + 1)) name) else name)"
  by pat_completeness auto
termination
proof (relation "measure length")
  show "wf (measure length)" by simp
next
  fix name :: string and i :: int
  assume i: "i = Index name (CHR ''.'')" and pos: "- 1 < i"
  from i pos have "name \<noteq> []"
    by (auto simp: Index_def)
  moreover from pos have "0 < nat (i + 1)" by simp
  ultimately show "(drop (nat (i + 1)) name, name) \<in> measure length"
    by (cases name) auto
qed

definition NewDeconstruct :: "func \<Rightarrow> panic + Deconstruct" where
  "NewDeconstruct f =
     (let name = NewDeconstruct_name (Base (f_Name f))
      in (case NewParameters f of
            Inl e \<Rightarrow> Inl e
          | Inr parameters \<Rightarrow>
              Inr \<lparr>dec_Parameters = parameters,
                   dec_Pointer = f_Pointer f,
                   dec_Name = name,
                   dec_Type = f,
                   dec_Variadic = f_IsVariadic f\<rparr>))"

definition x_NewFunction :: "func \<Rightarrow> panic + x_Function" where
  "x_NewFunction f =
     (case NewDeconstruct f of
        Inl e \<Rightarrow> Inl e
      | Inr deconstruct \<Rightarrow>
          (case NewArguments (dec_Type deconstruct) (dec_Pointer deconstruct)
                  (dec_Variadic deconstruct) (dec_Parameters deconstruct) of
             Inl e \<Rightarrow> Inl e
           | Inr arguments \<Rightarrow>
               (let len = int (length arguments)
                in Inr \<lparr>xfn_Arguments = arguments,
                        xfn_Empty = (len = 0),
                        xfn_F = f,
                        xfn_Length = len,
                        xfn_Pointer = dec_Pointer deconstruct,
                        xfn_Name = dec_Name deconstruct,
                        xfn_Variadic = dec_Variadic deconstruct\<rparr>)))"

text \<open>The loop of \<open>NewFunctions\<close>: each descriptor is stored under its upper-cased name.\<close>

fun NewFunctions_loop :: "(string \<Rightarrow> string) \<Rightarrow> func list \<Rightarrow> Functions \<Rightarrow> panic + Functions" where
  "NewFunctions_loop ToUpper [] functions = Inr functions"
| "NewFunctions_loop ToUpper (x # xs) functions =
     (case x_NewFunction x of
        Inl e \<Rightarrow> Inl e
      | Inr n \<Rightarrow> NewFunctions_loop ToUpper xs (functions(ToUpper (xfn_Name n) \<mapsto> n)))"

definition NewFunctions :: "(string \<Rightarrow> string) \<Rightarrow> func list \<Rightarrow> panic + Functions" where
  "NewFunctions ToUpper f = NewFunctions_loop ToUpper f Map.empty"

definition NewRunner :: "(string \<Rightarrow> string) \<Rightarrow> func list \<Rightarrow> panic + Runner" where
  "NewRunner ToUpper f =
     (case NewFunctions ToUpper f of
        Inl e \<Rightarrow> Inl e
      | Inr functions \<Rightarrow> Inr \<lparr>Runner_Functions = functions\<rparr>)"

text \<open>\<open>Argument.Is\<close>; the value it prints first is not part of the model.\<close>

definition Argument_Is :: "(string \<Rightarrow> string) \<Rightarrow> x_Argument option \<Rightarrow> string \<Rightarrow> panic + bool" where
  "Argument_Is ToUpper argument key =
     (case argument of
        None \<Rightarrow> Inl NilDereference
      | Some a \<Rightarrow> Inr (ToUpper (xarg_Value a) = ToUpper key))"

definition Arg_Is :: "(string \<Rightarrow> string) \<Rightarrow> Arg option \<Rightarrow> string \<Rightarrow> panic + bool" where
  "Arg_Is ToUpper arg key =
     (case arg of
        None \<Rightarrow> Inl NilDereference
      | Some a \<Rightarrow>
          (if Arg_Argument a \<noteq> None then Argument_Is ToUpper (Arg_Argument a) key else Inr False))"

definition Arguments_Bounds :: "Arguments \<Rightarrow> int \<Rightarrow> bool" where
  "Arguments_Bounds arguments i = ((i > - 1) \<and> (i < int (length arguments)))"

definition Arguments_Get :: "Arguments \<Rightarrow> int \<Rightarrow> panic + (x_Argument option \<times> bool)" where
  "Arguments_Get arguments i =
     (if Arguments_Bounds arguments i
      then (case index arguments i of
              Inl e \<Rightarrow> Inl e
            | Inr argument \<Rightarrow> Inr (argument, True))
      else Inr (None, False))"

definition Arguments_Length :: "Arguments \<Rightarrow> int" where
  "Arguments_Length arguments = int (length arguments)"

definition Arguments_Peek :: "Arguments \<Rightarrow> int \<Rightarrow> panic + Arg option" where
  "Arguments_Peek arguments i =
     (case Arguments_Get arguments i of
        Inl e \<Rightarrow> Inl e
      | Inr (argument, ok) \<Rightarrow>
          Inr (Some (if ok then \<lparr>Arg_Argument = argument\<rparr> else \<lparr>Arg_Argument = None\<rparr>)))"

definition Functions_Get :: "(string \<Rightarrow> string) \<Rightarrow> Functions \<Rightarrow> string \<Rightarrow> x_Function option \<times> bool" where
  "Functions_Get ToUpper functions key =
     (functions (ToUpper key), functions (ToUpper key) \<noteq> None)"

definition Functions_Has :: "(string \<Rightarrow> string) \<Rightarrow> Functions \<Rightarrow> string \<Rightarrow> bool" where
  "Functions_Has ToUpper functions key = (functions (ToUpper key) \<noteq> None)"

definition Functions_Contains :: "(string \<Rightarrow> string) \<Rightarrow> Functions \<Rightarrow> x_Function \<Rightarrow> bool" where
  "Functions_Contains ToUpper functions function = Functions_Has ToUpper functions (xfn_Name function)"

text \<open>
  The type assertion \<open>function.F.(func(i ...interface{}))\<close> holds for a function whose
  only parameter is the variadic \<open>...interface{}\<close> and that has no result.
\<close>

definition assert_variadic_any :: "func \<Rightarrow> panic + func" where
  "assert_variadic_any f =
     (if f_IsVariadic f \<and> f_Out f = []
         \<and> f_In f = [\<lparr>type_String = ''[]interface {}'', type_Kind = KSlice\<rparr>]
      then Inr f else Inl TypeAssertionFailed)"

text \<open>
  \<open>Runner.Get\<close>. The \<open>ok\<close> that \<open>if argument, ok := ...\<close> declares is a new variable of
  the \<open>if\<close> statement (\<open>ok'\<close> below): the assignment \<open>ok = argument.Is("interface")\<close>
  writes to it, and the function returns the \<open>ok\<close> of the lookup.
\<close>

definition Runner_Get :: "(string \<Rightarrow> string) \<Rightarrow> Runner \<Rightarrow> string \<Rightarrow> panic + (func option \<times> bool)" where
  "Runner_Get ToUpper runner key =
     (case Functions_Get ToUpper (Runner_Functions runner) key of
        (None, ok) \<Rightarrow> Inr (None, ok)
      | (Some function, ok) \<Rightarrow>
          (if ok \<and> xfn_Variadic function
           then (case Arguments_Get (xfn_Arguments function) 0 of
                   Inl e \<Rightarrow> Inl e
                 | Inr (argument, ok') \<Rightarrow>
                     (if ok'
                      then (case Argument_Is ToUpper argument ''interface'' of
                              Inl e \<Rightarrow> Inl e
                            | Inr ok' \<Rightarrow>
                                (if ok'
                                 then (case assert_variadic_any (xfn_F function) of
                                         Inl e \<Rightarrow> Inl e
                                       | Inr f \<Rightarrow> Inr (Some f, ok))
                                 else Inr (None, ok)))
                      else Inr (None, ok)))
           else Inr (None, ok)))"

section \<open>Functions used as concrete inputs\<close>

text \<open>
  A function declared on the only line of its file, with the given symbol name, parameter
  types and variadic flag, and no result; the line the runtime reports for its entry is
  the declaration line, as it is for a function whose body calls another one.
\<close>

definition declared :: "string \<Rightarrow> string \<Rightarrow> rtype list \<Rightarrow> bool \<Rightarrow> func" where
  "declared name line ins variadic =
     \<lparr>f_In = ins, f_Out = [], f_IsVariadic = variadic, f_Pointer = 4096, f_Name = name,
      f_File = ''main.go'', f_ReadFile = Some line, f_Line = 1\<rparr>"

definition t_string :: rtype where
  "t_string = \<lparr>type_String = ''string'', type_Kind = KString\<rparr>"

definition t_bool :: rtype where
  "t_bool = \<lparr>type_String = ''bool'', type_Kind = KBool\<rparr>"

definition t_int :: rtype where
  "t_int = \<lparr>type_String = ''int'', type_Kind = KInt\<rparr>"

definition t_any_slice :: rtype where
  "t_any_slice = \<lparr>type_String = ''[]interface {}'', type_Kind = KSlice\<rparr>"

text \<open>\<open>func Build(target string, force bool)\<close> of package \<open>main\<close>.\<close>

definition Build :: func where
  "Build = declared ''main.Build'' ''func Build(target string, force bool) {''
             [t_string, t_bool] False"

text \<open>\<open>func build(target string)\<close> of a package \<open>tools\<close>.\<close>

definition tools_build :: func where
  "tools_build = declared ''github.com/gellel/emojipedia/tools.build''
                   ''func build(target string) {'' [t_string] False"

text \<open>\<open>func Run(a int, opts ...interface{})\<close> of package \<open>main\<close>.\<close>

definition Run2 :: func where
  "Run2 = declared ''main.Run'' ''func Run(a int, opts ...interface{}) {''
            [t_int, t_any_slice] True"

text \<open>
  \<open>Build\<close> with its parameter list written over several lines. The reported line is
  that of the \<open>func\<close> keyword; no line of the file holds a parenthesised list.
\<close>

definition BuildMultiline :: func where
  "BuildMultiline =
     \<lparr>f_In = [t_string, t_bool], f_Out = [], f_IsVariadic = False, f_Pointer = 4096,
      f_Name = ''main.Build'', f_File = ''main.go'',
      f_ReadFile = Some (''package main'' @ [CHR 0x0A, CHR 0x0A] @ ''func Build('' @ [CHR 0x0A]
                          @ [CHR 0x09] @ ''target string,'' @ [CHR 0x0A]
                          @ [CHR 0x09] @ ''force bool,'' @ [CHR 0x0A] @ '') {'' @ [CHR 0x0A]
                          @ ''}'' @ [CHR 0x0A]),
      f_Line = 3\<rparr>"

text \<open>
  The method expression \<open>Recv.Build\<close> of \<open>func (r Recv) Build(target string, force bool)\<close>:
  the receiver is its first parameter, and the first parenthesised list of the
  declaration line is the receiver's.
\<close>

definition t_Recv :: rtype where
  "t_Recv = \<lparr>type_String = ''main.Recv'', type_Kind = KStruct\<rparr>"

definition Recv_Build_expr :: func where
  "Recv_Build_expr = declared ''main.Recv.Build''
                       ''func (r Recv) Build(target string, force bool) {''
                       [t_Recv, t_string, t_bool] False"

text \<open>
  \<open>func Results() (string, error)\<close> of package \<open>main\<close>: the only parenthesised list
  with something in it is the result list.
\<close>

definition t_error :: rtype where
  "t_error = \<lparr>type_String = ''error'', type_Kind = KInterface\<rparr>"

definition Results :: func where
  "Results =
     \<lparr>f_In = [], f_Out = [t_string, t_error], f_IsVariadic = False, f_Pointer = 4096,
      f_Name = ''main.Results'', f_File = ''main.go'',
      f_ReadFile = Some ''func Results() (string, error) {'', f_Line = 1\<rparr>"

text \<open>
  \<open>Build\<close> with an empty body that ends on the next line: the runtime reports the
  line of the closing brace for the entry of such a function.
\<close>

definition Build_empty_body :: func where
  "Build_empty_body =
     \<lparr>f_In = [t_string, t_bool], f_Out = [], f_IsVariadic = False, f_Pointer = 4096,
      f_Name = ''main.Build'', f_File = ''main.go'',
      f_ReadFile = Some (''func Build(target string, force bool) {'' @ [CHR 0x0A] @ ''}''),
      f_Line = 2\<rparr>"

text \<open>\<open>func Find(key string)\<close> of package \<open>main\<close>.\<close>

definition Find :: func where
  "Find = declared ''main.Find'' ''func Find(key string) {'' [t_string] False"

text \<open>
  The descriptors \<open>NewProgram\<close> builds from \<open>Build\<close>, \<open>Find\<close> and \<open>build\<close>, and a
  description for them.
\<close>

definition example_functions :: "func list" where
  "example_functions = [Build, Find, tools_build]"

definition example_descriptors :: "cli_Function list" where
  "example_descriptors =
     (case NewProgram_loop ToLower_ascii example_functions [] of Inl e \<Rightarrow> [] | Inr f \<Rightarrow> f)"

definition example_description :: string where
  "example_description =
     ''emojipedia collects the emoji, categories, subcategories and keywords that unicode.org publishes''"

text \<open>A line of options: at least one, each starting with an opening bracket.\<close>

definition bracketed :: "string list \<Rightarrow> bool" where
  "bracketed p = (p \<noteq> [] \<and> (\<forall>opt \<in> set p. \<exists>t. opt = CHR ''['' # t))"

text \<open>The equation of the counting loop is unfolded where a proof asks for it.\<close>

declare cli_NewFunction_loop.simps [simp del]

section \<open>Indexed access to an argument collection\<close>

lemma index_in_range: "0 \<le> i \<Longrightarrow> i < int (length xs) \<Longrightarrow> index xs i = Inr (xs ! nat i)"
  by (simp add: index_def)

lemma Arguments_Get_eq:
  "Arguments_Get arguments i =
     (if 0 \<le> i \<and> i < int (length arguments) then Inr (arguments ! nat i, True)
      else Inr (None, False))"
  by (auto simp: Arguments_Get_def Arguments_Bounds_def index_def)

lemma Arguments_Peek_eq:
  "Arguments_Peek arguments i =
     Inr (Some \<lparr>Arg_Argument =
                  (if 0 \<le> i \<and> i < int (length arguments) then arguments ! nat i else None)\<rparr>)"
  by (simp add: Arguments_Peek_def Arguments_Get_eq)

lemma Arg_Is_total: "\<exists>b. Arg_Is ToUpper (Some a) key = Inr b"
  by (cases "Arg_Argument a") (auto simp: Arg_Is_def Argument_Is_def)

text \<open>
  Claim C10. For every argument collection and every integer \<open>i\<close>: \<open>Get(i)\<close> returns
  the nil argument and \<open>ok = false\<close> when \<open>i < 0\<close> or \<open>i \<ge> len\<close>, and the \<open>i\<close>-th
  argument and \<open>ok = true\<close> otherwise; \<open>Peek(i)\<close> returns a non-nil \<open>Arg\<close>, on which
  \<open>Is(key)\<close> returns a boolean, and that boolean is false for every key when \<open>i\<close> is
  out of range. None of the three calls panics.
\<close>

theorem Arguments_indexed_access_total:
  "(i < 0 \<or> i \<ge> int (length arguments) \<longrightarrow> Arguments_Get arguments i = Inr (None, False))
   \<and> (0 \<le> i \<and> i < int (length arguments)
        \<longrightarrow> Arguments_Get arguments i = Inr (arguments ! nat i, True))
   \<and> (\<exists>arg b. Arguments_Peek arguments i = Inr (Some arg) \<and> Arg_Is ToUpper (Some arg) key = Inr b)
   \<and> (i < 0 \<or> i \<ge> int (length arguments)
        \<longrightarrow> (\<exists>arg. Arguments_Peek arguments i = Inr (Some arg)
                   \<and> (\<forall>k. Arg_Is ToUpper (Some arg) k = Inr False)))"
proof -
  have get_out: "i < 0 \<or> i \<ge> int (length arguments)
                 \<longrightarrow> Arguments_Get arguments i = Inr (None, False)"
    by (auto simp: Arguments_Get_eq)
  have get_in: "0 \<le> i \<and> i < int (length arguments)
                \<longrightarrow> Arguments_Get arguments i = Inr (arguments ! nat i, True)"
    by (simp add: Arguments_Get_eq)
  have peek: "\<exists>arg b. Arguments_Peek arguments i = Inr (Some arg) \<and> Arg_Is ToUpper (Some arg) key = Inr b"
    using Arg_Is_total by (simp add: Arguments_Peek_eq)
  have peek_out: "i < 0 \<or> i \<ge> int (length arguments)
                  \<longrightarrow> (\<exists>arg. Arguments_Peek arguments i = Inr (Some arg)
                             \<and> (\<forall>k. Arg_Is ToUpper (Some arg) k = Inr False))"
    by (auto simp: Arguments_Peek_eq Arg_Is_def)
  from get_out get_in peek peek_out show ?thesis by blast
qed

theorem Arguments_indexed_access_total_witness:
  "Arguments_Get [None, None] 5 = Inr (None, False)
   \<and> Arguments_Get [None, None] (- 1) = Inr (None, False)
   \<and> Arguments_Get [None, None] 1 = Inr ([None, None] ! nat 1, True)
   \<and> (\<exists>arg. Arguments_Peek [None, None] 5 = Inr (Some arg)
          \<and> (\<forall>k. Arg_Is ToUpper_ascii (Some arg) k = Inr False))"
  using Arguments_indexed_access_total
          [where i = 5 and arguments = "[None, None]" and ToUpper = ToUpper_ascii]
        Arguments_indexed_access_total
          [where i = "- 1" and arguments = "[None, None]" and ToUpper = ToUpper_ascii]
        Arguments_indexed_access_total
          [where i = 1 and arguments = "[None, None]" and ToUpper = ToUpper_ascii]
  by simp

section \<open>The worked example of a two-parameter function\<close>

lemma Index_append_sep: "sep \<notin> set q \<Longrightarrow> Index (q @ sep # r) sep = int (length q)"
  by (induction q) (auto simp: Index_def)

lemma displayName_Build:
  assumes "Base raw = q @ ''.Build''" and "CHR ''.'' \<notin> set q"
    and "ToLower ''Build'' = ''build''"
  shows "cli_displayName ToLower raw = ''build''"
proof -
  from assms(2) have "Index (q @ ''.Build'') (CHR ''.'') = int (length q)"
    using Index_append_sep [of "CHR ''.''" q "''Build''"] by simp
  then have "drop (nat (Index (Base raw) (CHR ''.'') + 1)) (Base raw) = ''Build''"
    by (simp add: assms(1) nat_add_distrib)
  moreover have "FindAllString ''Build'' = [''Build'']"
    by code_simp
  ultimately show ?thesis
    by (simp add: cli_displayName_def assms(3))
qed

lemma FindSubmatch_Build:
  "FindSubmatch (''func Build(target string, force bool)'' @ rest)
     = Some ''target string, force bool''"
  by (simp add: notParen_def)

lemma NewFunction_loop_Build:
  assumes "f_In fn = [t_string, t_bool]"
  shows "cli_NewFunction_loop fn [''target string'', '' force bool''] 0 [] =
           Inr [\<lparr>arg_Kind = KString, arg_Parameter = ''target string'',
                  arg_Pointer = f_Pointer fn, arg_Position = 0, arg_Name = ''target'',
                  arg_Slice = False, arg_Value = ''string'',
                  arg_Varadict = f_IsVariadic fn\<rparr>,
                \<lparr>arg_Kind = KBool, arg_Parameter = '' force bool'',
                  arg_Pointer = f_Pointer fn, arg_Position = 1, arg_Name = ''force'',
                  arg_Slice = False, arg_Value = ''bool'',
                  arg_Varadict = f_IsVariadic fn\<rparr>]"
proof -
  have s1: "Split (TrimSpace ''target string'') (CHR '' '') = [''target'', ''string'']"
    and s2: "Split (TrimSpace '' force bool'') (CHR '' '') = [''force'', ''bool'']"
    and r: "Replace ''string'' = ''string''" "Replace ''bool'' = ''bool''"
    by code_simp+
  have a1: "cli_NewArgument 0 (f_Pointer fn) ''target string'' fn =
              Inr \<lparr>arg_Kind = KString, arg_Parameter = ''target string'',
                   arg_Pointer = f_Pointer fn, arg_Position = 0, arg_Name = ''target'',
                   arg_Slice = False, arg_Value = ''string'',
                   arg_Varadict = f_IsVariadic fn\<rparr>"
    by (simp add: cli_NewArgument_def In_def index_def assms t_string_def s1 r)
  have a2: "cli_NewArgument 1 (f_Pointer fn) '' force bool'' fn =
              Inr \<lparr>arg_Kind = KBool, arg_Parameter = '' force bool'',
                   arg_Pointer = f_Pointer fn, arg_Position = 1, arg_Name = ''force'',
                   arg_Slice = False, arg_Value = ''bool'',
                   arg_Varadict = f_IsVariadic fn\<rparr>"
    by (simp add: cli_NewArgument_def In_def index_def assms t_bool_def s2 r)
  show ?thesis
    by (simp add: cli_NewFunction_loop.simps [of fn _ 0] cli_NewFunction_loop.simps [of fn _ "Suc 0"]
          cli_NewFunction_loop.simps [of fn _ "Suc (Suc 0)"] index_def assms a1 a2)
qed

text \<open>
  Claim C9, as amended. For a function declared as
  \<open>func Build(target string, force bool)\<close>, when the line the runtime reports for it is
  that declaration line, \<open>cli.NewFunction\<close> returns a descriptor with two arguments named
  \<open>target\<close> and \<open>force\<close>, which renders as \<open>build [target=<string>, force=<bool>]\<close>.
  The symbol name is \<open>Build\<close> qualified by any package path, whatever follows the
  parameter list on the line is free, and of \<open>ToLower\<close> only its values on the three
  ASCII strings it is applied to are used.
\<close>

theorem Build_descriptor_and_option_string:
  assumes "source_line fn = Inr (''func Build(target string, force bool)'' @ rest)"
    and "f_In fn = [t_string, t_bool]"
    and "\<not> f_IsVariadic fn"
    and "Base (f_Name fn) = q @ ''.Build''" and "CHR ''.'' \<notin> set q"
    and "ToLower ''Build'' = ''build''"
    and "ToLower ''target=<string>'' = ''target=<string>''"
    and "ToLower ''force=<bool>'' = ''force=<bool>''"
  shows "\<exists>d. cli_NewFunction ToLower fn = Inr d
             \<and> length (fn_Arguments d) = 2
             \<and> map arg_Name (fn_Arguments d) = [''target'', ''force'']
             \<and> GetFunctionString ToLower d = ''build [target=<string>, force=<bool>]''"
proof -
  have sp: "Split ''target string, force bool'' (CHR '','') = [''target string'', '' force bool'']"
    by code_simp
  from assms(1) FindSubmatch_Build [of rest] sp NewFunction_loop_Build [OF assms(2)]
       displayName_Build [where ToLower = ToLower, OF assms(4) assms(5) assms(6)] assms(3)
  show ?thesis
    by (simp add: cli_NewFunction_def GetFunctionString_def GetArgumentString_def
          assms(7) assms(8))
qed

theorem Build_descriptor_and_option_string_witness:
  "\<exists>d. cli_NewFunction ToLower_ascii Build = Inr d
       \<and> length (fn_Arguments d) = 2
       \<and> map arg_Name (fn_Arguments d) = [''target'', ''force'']
       \<and> GetFunctionString ToLower_ascii d = ''build [target=<string>, force=<bool>]''"
proof -
  have "source_line Build = Inr (''func Build(target string, force bool)'' @ '' {'')"
    and "f_In Build = [t_string, t_bool]" and "\<not> f_IsVariadic Build"
    and "Base (f_Name Build) = ''main'' @ ''.Build''" and "CHR ''.'' \<notin> set ''main''"
    and "ToLower_ascii ''Build'' = ''build''"
    and "ToLower_ascii ''target=<string>'' = ''target=<string>''"
    and "ToLower_ascii ''force=<bool>'' = ''force=<bool>''"
    by code_simp+
  from Build_descriptor_and_option_string [where ToLower = ToLower_ascii, OF this]
  show ?thesis .
qed

text \<open>
  Claim C9, as stated, fails for \<open>Build\<close> with an empty body, declared in the same
  words: the reported line is that of the closing brace, no name is parsed, and the
  descriptor has no argument and renders as \<open>--build\<close>.
\<close>

theorem Build_with_other_reported_line_counterexample:
  "map_sum id (map arg_Name \<circ> fn_Arguments) (cli_NewFunction ToLower_ascii Build_empty_body)
     = Inr []
   \<and> map_sum id (GetFunctionString ToLower_ascii) (cli_NewFunction ToLower_ascii Build_empty_body)
     = Inr ''--build''"
  by code_simp

section \<open>The registry keeps the later of two colliding registrations\<close>




section \<open>The loops of descriptor construction\<close>

lemma Split_not_Nil: "Split s sep \<noteq> []"
  by (induction s) (auto split: list.splits)

lemma cli_NewArgument_Varadict:
  "cli_NewArgument i p parameter fn = Inr a \<Longrightarrow> arg_Varadict a = f_IsVariadic fn"
  by (auto simp: cli_NewArgument_def Let_def split: sum.splits)

lemma cli_NewArgument_ok:
  "i < length (f_In fn) \<Longrightarrow> \<exists>a. cli_NewArgument (int i) p parameter fn = Inr a"
  using Split_not_Nil [of "TrimSpace parameter" "CHR '' ''"]
  by (auto simp: cli_NewArgument_def In_def index_def Let_def split: sum.splits)

lemma cli_NewArgument_Parameter:
  "cli_NewArgument i p parameter fn = Inr a \<Longrightarrow> arg_Parameter a = parameter"
  by (auto simp: cli_NewArgument_def Let_def split: sum.splits)

lemma cli_loop_Varadict:
  "cli_NewFunction_loop fn ps i acc = Inr r \<Longrightarrow>
   \<forall>a \<in> set acc. arg_Varadict a = f_IsVariadic fn \<Longrightarrow>
   \<forall>a \<in> set r. arg_Varadict a = f_IsVariadic fn"
proof (induction fn ps i acc rule: cli_NewFunction_loop.induct)
  case (1 fn ps i acc)
  show ?case
  proof (cases "i < length (f_In fn)")
    case False
    with "1.prems" show ?thesis
      by (simp add: cli_NewFunction_loop.simps [of fn ps i acc])
  next
    case True
    from "1.prems"(1) True obtain parameter a where
      p: "index ps (int i) = Inr parameter" and
      a: "cli_NewArgument (int i) (f_Pointer fn) parameter fn = Inr a" and
      rec: "cli_NewFunction_loop fn ps (Suc i) (acc @ [a]) = Inr r"
      by (auto simp: cli_NewFunction_loop.simps [of fn ps i acc] split: sum.splits)
    from "1.prems"(2) cli_NewArgument_Varadict [OF a]
    have "\<forall>b \<in> set (acc @ [a]). arg_Varadict b = f_IsVariadic fn" by simp
    from "1.IH" [OF True p a rec this] show ?thesis .
  qed
qed

lemma cli_loop_ok:
  "length (f_In fn) \<le> length ps \<Longrightarrow>
   \<exists>r. cli_NewFunction_loop fn ps i acc = Inr r
       \<and> length r = length acc + (length (f_In fn) - i)
       \<and> map arg_Parameter r
           = map arg_Parameter acc @ take (length (f_In fn) - i) (drop i ps)"
proof (induction fn ps i acc rule: cli_NewFunction_loop.induct)
  case (1 fn ps i acc)
  show ?case
  proof (cases "i < length (f_In fn)")
    case False
    then show ?thesis
      by (simp add: cli_NewFunction_loop.simps [of fn ps i acc])
  next
    case True
    with "1.prems" have p: "index ps (int i) = Inr (ps ! i)"
      by (simp add: index_def)
    from cli_NewArgument_ok [OF True] obtain a where
      a: "cli_NewArgument (int i) (f_Pointer fn) (ps ! i) fn = Inr a" by blast
    from "1.IH" [OF True p a "1.prems"] obtain r where
      r: "cli_NewFunction_loop fn ps (Suc i) (acc @ [a]) = Inr r"
      "length r = length (acc @ [a]) + (length (f_In fn) - Suc i)"
      "map arg_Parameter r
         = map arg_Parameter (acc @ [a]) @ take (length (f_In fn) - Suc i) (drop (Suc i) ps)"
      by blast
    from True "1.prems" have "i < length ps" by simp
    then have "drop i ps = ps ! i # drop (Suc i) ps"
      by (simp add: Cons_nth_drop_Suc)
    moreover from True obtain k where "length (f_In fn) - i = Suc k"
      "length (f_In fn) - Suc i = k"
      by (cases "length (f_In fn) - i") auto
    ultimately have "take (length (f_In fn) - i) (drop i ps)
                       = ps ! i # take (length (f_In fn) - Suc i) (drop (Suc i) ps)"
      by simp
    with r cli_NewArgument_Parameter [OF a] True p a show ?thesis
      by (simp add: cli_NewFunction_loop.simps [of fn ps i acc])
  qed
qed

lemma cli_loop_fail:
  "length ps < length (f_In fn) \<Longrightarrow> i \<le> length ps \<Longrightarrow>
   cli_NewFunction_loop fn ps i acc = Inl IndexOutOfRange"
proof (induction fn ps i acc rule: cli_NewFunction_loop.induct)
  case (1 fn ps i acc)
  show ?case
  proof (cases "i < length ps")
    case False
    with "1.prems" have "i < length (f_In fn)" "index ps (int i) = Inl IndexOutOfRange"
      by (simp_all add: index_def)
    then show ?thesis
      by (simp add: cli_NewFunction_loop.simps [of fn ps i acc])
  next
    case True
    with "1.prems" have lt: "i < length (f_In fn)" by simp
    from True have p: "index ps (int i) = Inr (ps ! i)"
      by (simp add: index_def)
    from cli_NewArgument_ok [OF lt] obtain a where
      a: "cli_NewArgument (int i) (f_Pointer fn) (ps ! i) fn = Inr a" by blast
    from True have "Suc i \<le> length ps" by simp
    from "1.IH" [OF lt p a "1.prems"(1) this] lt p a show ?thesis
      by (simp add: cli_NewFunction_loop.simps [of fn ps i acc])
  qed
qed

lemma x_loop_Variadic:
  "NewArguments_loop fn p v ps i acc = Inr r \<Longrightarrow>
   \<forall>a \<in> set acc. \<exists>b. a = Some b \<and> xarg_Variadic b = v \<Longrightarrow>
   \<forall>a \<in> set r. \<exists>b. a = Some b \<and> xarg_Variadic b = v"
proof (induction ps arbitrary: i acc)
  case Nil
  then show ?case by simp
next
  case (Cons parameter ps)
  from Cons.prems(1) obtain t :: rtype and name :: string where
    rec: "NewArguments_loop fn p v ps (Suc i)
            (acc @ [Some (x_NewArgument name (type_String t) (int i) p v (type_Kind t))]) = Inr r"
    by (auto split: sum.splits)
  show ?case
    by (rule Cons.IH [OF rec]) (use Cons.prems(2) in \<open>auto simp: x_NewArgument_def\<close>)
qed

lemma x_loop_ok:
  "i + length ps \<le> length (f_In fn) \<Longrightarrow>
   \<exists>r. NewArguments_loop fn p v ps i acc = Inr r \<and> length r = length acc + length ps"
proof (induction ps arbitrary: i acc)
  case Nil
  then show ?case by simp
next
  case (Cons parameter ps)
  then have "i < length (f_In fn)" by simp
  then have t: "In fn (int i) = Inr (f_In fn ! i)" by (simp add: In_def)
  obtain name where n: "index (Split parameter (CHR '' '')) 0 = Inr name"
    using Split_not_Nil [of parameter "CHR '' ''"] by (auto simp: index_def)
  from Cons.prems have "Suc i + length ps \<le> length (f_In fn)" by simp
  from Cons.IH [OF this, of "acc @ [Some (x_NewArgument name (type_String (f_In fn ! i)) (int i)
                                            p v (type_Kind (f_In fn ! i)))]"]
  obtain r where "NewArguments_loop fn p v ps (Suc i)
       (acc @ [Some (x_NewArgument name (type_String (f_In fn ! i)) (int i) p v
                       (type_Kind (f_In fn ! i)))]) = Inr r"
     "length r = Suc (length acc) + length ps" by auto
  with t n show ?case by simp
qed

lemma x_loop_fail:
  "length (f_In fn) < i + length ps \<Longrightarrow> i \<le> length (f_In fn) \<Longrightarrow>
   NewArguments_loop fn p v ps i acc = Inl ReflectIndexOutOfBounds"
proof (induction ps arbitrary: i acc)
  case Nil
  then show ?case by simp
next
  case (Cons parameter ps)
  show ?case
  proof (cases "i < length (f_In fn)")
    case False
    then show ?thesis by (simp add: In_def)
  next
    case True
    then have t: "In fn (int i) = Inr (f_In fn ! i)" by (simp add: In_def)
    obtain name where n: "index (Split parameter (CHR '' '')) 0 = Inr name"
      using Split_not_Nil [of parameter "CHR '' ''"] by (auto simp: index_def)
    from Cons.prems True have "length (f_In fn) < Suc i + length ps" "Suc i \<le> length (f_In fn)"
      by simp_all
    from Cons.IH [OF this] t n show ?thesis by simp
  qed
qed

section \<open>Which arguments carry the variadic flag\<close>

text \<open>
  Both constructors write the variadic flag of the function into each argument they
  build, whatever its position.
\<close>

lemma arguments_carry_function_variadic_flag:
  "(cli_NewFunction ToLower fn = Inr d \<longrightarrow>
      fn_Varadict d = f_IsVariadic fn
      \<and> (\<forall>a \<in> set (fn_Arguments d). arg_Varadict a = f_IsVariadic fn))
   \<and> (x_NewFunction fn = Inr e \<longrightarrow>
      xfn_Variadic e = f_IsVariadic fn
      \<and> (\<forall>a \<in> set (xfn_Arguments e). \<exists>b. a = Some b \<and> xarg_Variadic b = f_IsVariadic fn))"
proof -
  have cli: "fn_Varadict d = f_IsVariadic fn
             \<and> (\<forall>a \<in> set (fn_Arguments d). arg_Varadict a = f_IsVariadic fn)"
    if c: "cli_NewFunction ToLower fn = Inr d"
  proof -
    from c obtain l arguments where
      args: "(case FindSubmatch l of None \<Rightarrow> Inr []
              | Some m \<Rightarrow> cli_NewFunction_loop fn (Split m (CHR '','')) 0 []) = Inr arguments"
      and d: "fn_Arguments d = arguments" "fn_Varadict d = f_IsVariadic fn"
      by (auto simp: cli_NewFunction_def split: sum.splits)
    have "\<forall>a \<in> set arguments. arg_Varadict a = f_IsVariadic fn"
    proof (cases "FindSubmatch l")
      case None
      with args show ?thesis by auto
    next
      case (Some m)
      with args have "cli_NewFunction_loop fn (Split m (CHR '','')) 0 [] = Inr arguments"
        by simp
      from cli_loop_Varadict [OF this] show ?thesis by simp
    qed
    with d show ?thesis by simp
  qed
  have x: "xfn_Variadic e = f_IsVariadic fn
           \<and> (\<forall>a \<in> set (xfn_Arguments e). \<exists>b. a = Some b \<and> xarg_Variadic b = f_IsVariadic fn)"
    if c: "x_NewFunction fn = Inr e"
  proof -
    from c obtain ps where
      args: "NewArguments_loop fn (f_Pointer fn) (f_IsVariadic fn) ps 0 [] = Inr (xfn_Arguments e)"
      and v: "xfn_Variadic e = f_IsVariadic fn"
      by (auto simp: x_NewFunction_def NewDeconstruct_def NewArguments_def Let_def
               split: sum.splits)
    from x_loop_Variadic [OF args] v show ?thesis by simp
  qed
  from cli x show ?thesis by blast
qed

text \<open>
  Claim C2 at a concrete input. For \<open>func Run(a int, opts ...interface{})\<close> both
  constructors set the flag on both arguments, the non-final \<open>a\<close> included, and package
  cli renders \<open>a\<close> as a variadic slot.
\<close>

theorem variadic_flag_on_non_final_argument:
  "map_sum id (map arg_Varadict \<circ> fn_Arguments) (cli_NewFunction ToLower_ascii Run2)
     = Inr [True, True]
   \<and> map_sum id (GetFunctionString ToLower_ascii) (cli_NewFunction ToLower_ascii Run2)
     = Inr ''run [a [...int], opts [...interface {}]]''
   \<and> map_sum id (map (map_option xarg_Variadic) \<circ> xfn_Arguments) (x_NewFunction Run2)
     = Inr [Some True, Some True]"
  by code_simp

section \<open>Construction when the parsed names and the arity differ\<close>

lemma NewParameters_Nil_iff:
  "NewParameters fn = Inr ps \<Longrightarrow>
   \<exists>l. source_line fn = Inr l
       \<and> (case FindSubmatch l of None \<Rightarrow> ps = [] | Some m \<Rightarrow> ps = Split m (CHR '','') \<and> ps \<noteq> [])"
  using Split_not_Nil
  by (auto simp: NewParameters_def split: sum.splits option.splits)

text \<open>
  Claim C4, as amended. Construction compares no counts. With \<open>ps\<close> the segments parsed
  from the source line (none when the line has no parenthesised list): \<open>cli.NewFunction\<close>
  panics on an index out of range when there are segments, but fewer than the arity;
  with at least as many segments as the arity it succeeds with one argument per reflected
  parameter, built from the first segments in their order, and without a parenthesised
  list it succeeds with no argument, whatever the arity. \<open>x.NewFunction\<close> panics in \<open>reflect\<close> when there are more segments than the
  arity, and otherwise succeeds with one argument per segment.
\<close>

theorem construction_without_count_check:
  assumes "NewParameters fn = Inr ps"
  shows "(ps \<noteq> [] \<and> length ps < length (f_In fn) \<longrightarrow> cli_NewFunction ToLower fn = Inl IndexOutOfRange)
       \<and> (ps \<noteq> [] \<and> length (f_In fn) \<le> length ps \<longrightarrow>
            (\<exists>d. cli_NewFunction ToLower fn = Inr d \<and> length (fn_Arguments d) = length (f_In fn)
                 \<and> map arg_Parameter (fn_Arguments d) = take (length (f_In fn)) ps))
       \<and> (ps = [] \<longrightarrow> (\<exists>d. cli_NewFunction ToLower fn = Inr d \<and> fn_Arguments d = []))
       \<and> (length (f_In fn) < length ps \<longrightarrow> x_NewFunction fn = Inl ReflectIndexOutOfBounds)
       \<and> (length ps \<le> length (f_In fn) \<longrightarrow>
            (\<exists>e. x_NewFunction fn = Inr e \<and> length (xfn_Arguments e) = length ps
                 \<and> xfn_Length e = int (length ps)))"
proof -
  from NewParameters_Nil_iff [OF assms] obtain l where
    l: "source_line fn = Inr l" and
    m: "case FindSubmatch l of None \<Rightarrow> ps = [] | Some m \<Rightarrow> ps = Split m (CHR '','') \<and> ps \<noteq> []"
    by blast
  have c1: "cli_NewFunction ToLower fn = Inl IndexOutOfRange"
    if "ps \<noteq> []" "length ps < length (f_In fn)"
  proof -
    from m that(1) obtain s where s: "FindSubmatch l = Some s" "ps = Split s (CHR '','')"
      by (auto split: option.splits)
    from cli_loop_fail [of ps fn 0 "[]"] that(2)
    have "cli_NewFunction_loop fn ps 0 [] = Inl IndexOutOfRange" by simp
    with l s show ?thesis by (simp add: cli_NewFunction_def)
  qed
  have c2: "\<exists>d. cli_NewFunction ToLower fn = Inr d \<and> length (fn_Arguments d) = length (f_In fn)
                \<and> map arg_Parameter (fn_Arguments d) = take (length (f_In fn)) ps"
    if "ps \<noteq> []" "length (f_In fn) \<le> length ps"
  proof -
    from m that(1) obtain s where s: "FindSubmatch l = Some s" "ps = Split s (CHR '','')"
      by (auto split: option.splits)
    from cli_loop_ok [OF that(2), of 0 "[]"] obtain r where
      "cli_NewFunction_loop fn ps 0 [] = Inr r" "length r = length (f_In fn)"
      "map arg_Parameter r = take (length (f_In fn)) ps" by auto
    with l s show ?thesis by (simp add: cli_NewFunction_def)
  qed
  have c3: "\<exists>d. cli_NewFunction ToLower fn = Inr d \<and> fn_Arguments d = []" if "ps = []"
  proof -
    from m that have "FindSubmatch l = None" by (auto split: option.splits)
    with l show ?thesis by (simp add: cli_NewFunction_def)
  qed
  have p: "NewDeconstruct fn =
             Inr \<lparr>dec_Parameters = ps, dec_Pointer = f_Pointer fn,
                  dec_Name = NewDeconstruct_name (Base (f_Name fn)), dec_Type = fn,
                  dec_Variadic = f_IsVariadic fn\<rparr>"
    using assms by (simp add: NewDeconstruct_def)
  have x1: "x_NewFunction fn = Inl ReflectIndexOutOfBounds" if "length (f_In fn) < length ps"
  proof -
    from x_loop_fail [of fn 0 ps "f_Pointer fn" "f_IsVariadic fn" "[]"] that
    have "NewArguments_loop fn (f_Pointer fn) (f_IsVariadic fn) ps 0 [] = Inl ReflectIndexOutOfBounds"
      by simp
    with p show ?thesis by (simp add: x_NewFunction_def NewArguments_def)
  qed
  have x2: "\<exists>e. x_NewFunction fn = Inr e \<and> length (xfn_Arguments e) = length ps
                \<and> xfn_Length e = int (length ps)" if "length ps \<le> length (f_In fn)"
  proof -
    from x_loop_ok [of 0 ps fn "f_Pointer fn" "f_IsVariadic fn" "[]"] that obtain r where
      "NewArguments_loop fn (f_Pointer fn) (f_IsVariadic fn) ps 0 [] = Inr r"
      "length r = length ps" by auto
    with p show ?thesis by (simp add: x_NewFunction_def NewArguments_def Let_def)
  qed
  from c1 c2 c3 x1 x2 show ?thesis by blast
qed

theorem construction_without_count_check_witness:
  "cli_NewFunction ToLower_ascii Recv_Build_expr = Inl IndexOutOfRange
   \<and> (\<exists>e. x_NewFunction Recv_Build_expr = Inr e \<and> length (xfn_Arguments e) = 1)
   \<and> (\<exists>d. cli_NewFunction ToLower_ascii Build = Inr d \<and> length (fn_Arguments d) = 2
          \<and> map arg_Parameter (fn_Arguments d) = [''target string'', '' force bool''])
   \<and> (\<exists>d. cli_NewFunction ToLower_ascii Results = Inr d \<and> fn_Arguments d = [])
   \<and> (\<exists>d. cli_NewFunction ToLower_ascii BuildMultiline = Inr d \<and> fn_Arguments d = [])
   \<and> x_NewFunction Results = Inl ReflectIndexOutOfBounds"
proof -
  have a: "NewParameters Recv_Build_expr = Inr [''r Recv'']"
    "length (f_In Recv_Build_expr) = 3"
    by code_simp+
  have b: "NewParameters Build = Inr [''target string'', '' force bool'']"
    "length (f_In Build) = 2"
    by code_simp+
  have c: "NewParameters BuildMultiline = Inr []"
    by code_simp
  have d: "NewParameters Results = Inr [''string'', '' error'']" "length (f_In Results) = 0"
    by code_simp+
  from construction_without_count_check [OF a(1), of ToLower_ascii]
       construction_without_count_check [OF b(1), of ToLower_ascii]
       construction_without_count_check [OF c, of ToLower_ascii]
       construction_without_count_check [OF d(1), of ToLower_ascii]
       a(2) b(2) d(2)
  show ?thesis by auto
qed

text \<open>
  Claim C4, as stated, fails for \<open>Build\<close> declared over several lines: no name is parsed
  for its two parameters, and both constructors return a descriptor without arguments.
\<close>

theorem count_mismatch_accepted_counterexample:
  "NewParameters BuildMultiline = Inr []
   \<and> length (f_In BuildMultiline) = 2
   \<and> map_sum id fn_Arguments (cli_NewFunction ToLower_ascii BuildMultiline) = Inr []
   \<and> map_sum id xfn_Length (x_NewFunction BuildMultiline) = Inr 0"
  by code_simp

section \<open>The layout of the option block\<close>

lemma WrapFunction_lines_eq:
  "WrapFunction_lines offset ps template =
     template @ concat (map (\<lambda>p. CHR 0x0A # replicate (Suc offset) (CHR '' '') @ Join p '' '') ps)"
  by (induction ps arbitrary: template) (simp_all add: replicate_app_Cons_same)

lemma Join_bracketed: "bracketed p \<Longrightarrow> \<exists>t. Join p sep = CHR ''['' # t"
  by (induction p sep rule: Join.induct) (auto simp: bracketed_def)

lemma WrapFunction_pack_bracketed:
  "\<forall>p \<in> set (tl (earlier @ [cur])). bracketed p \<Longrightarrow>
   \<exists>first rest. WrapFunction_pack ToLower offset fs earlier cur = first # rest
                \<and> (\<forall>p \<in> set rest. bracketed p)"
proof (induction fs arbitrary: earlier cur)
  case Nil
  then show ?case by (cases "earlier @ [cur]") auto
next
  case (Cons fn fs)
  note prems = Cons.prems and IH = Cons.IH
  let ?option = "''['' @ GetFunctionString ToLower fn @ '']''"
  have "tl ((earlier @ [cur]) @ [[?option]]) = tl (earlier @ [cur]) @ [[?option]]"
    by (rule tl_append2) simp
  moreover have "bracketed [?option]"
    by (simp add: bracketed_def)
  ultimately have new: "\<forall>p \<in> set (tl ((earlier @ [cur]) @ [[?option]])). bracketed p"
    using prems by auto
  have app: "\<forall>p \<in> set (tl (earlier @ [cur @ [?option]])). bracketed p"
  proof (cases earlier)
    case Nil
    then show ?thesis by simp
  next
    case (Cons d ds)
    with prems have "bracketed cur" by simp
    then have "bracketed (cur @ [?option])" by (auto simp: bracketed_def)
    with Cons prems show ?thesis by simp
  qed
  from IH [OF new] IH [OF app] show ?case
    by (simp add: Let_def)
qed

text \<open>
  Claim C8, as amended. The option block is \<open>usage: <name> [\<close> followed by the options
  of the first line, then, for each later line, a line feed, one space more than the
  length of \<open>usage: <name>\<close>, and the options of that line, the first of which starts with
  an opening bracket; the block ends with a closing bracket.
\<close>

theorem WrapFunction_layout:
  "\<exists>first rest.
     WrapFunction_pack ToLower (length (''usage: '' @ name)) functions [] [] = first # rest
     \<and> WrapFunction ToLower name functions =
         ''usage: '' @ name @ '' ['' @ Join first '' ''
         @ concat (map (\<lambda>p. CHR 0x0A # replicate (length (''usage: '' @ name) + 1) (CHR '' '')
                            @ Join p '' '') rest)
         @ '']''
     \<and> (\<forall>p \<in> set rest. \<exists>t. Join p '' '' = CHR ''['' # t)"
proof -
  from WrapFunction_pack_bracketed
         [where earlier = "[]" and cur = "[]" and offset = "length (''usage: '' @ name)"
            and fs = "functions" and ToLower = ToLower]
  obtain first rest where
    pack: "WrapFunction_pack ToLower (length (''usage: '' @ name)) functions [] [] = first # rest"
    and br: "\<forall>p \<in> set rest. bracketed p"
    by auto
  have "WrapFunction ToLower name functions =
         ''usage: '' @ name @ '' ['' @ Join first '' ''
         @ concat (map (\<lambda>p. CHR 0x0A # replicate (length (''usage: '' @ name) + 1) (CHR '' '')
                            @ Join p '' '') rest)
         @ '']''"
    using pack by (simp add: WrapFunction_def Let_def WrapFunction_lines_eq)
  moreover from br have "\<forall>p \<in> set rest. \<exists>t. Join p '' '' = CHR ''['' # t"
    using Join_bracketed by blast
  ultimately show ?thesis using pack by blast
qed

theorem WrapFunction_layout_witness:
  "\<exists>first p.
     WrapFunction_pack ToLower_ascii (length ''usage: emojipedia'') example_descriptors [] [] = [first, p]
     \<and> WrapFunction ToLower_ascii ''emojipedia'' example_descriptors =
         ''usage: emojipedia ['' @ Join first '' ''
         @ CHR 0x0A # replicate 18 (CHR '' '') @ Join p '' '' @ '']''
     \<and> (\<exists>t. Join p '' '' = CHR ''['' # t)"
proof -
  have pack: "WrapFunction_pack ToLower_ascii (length (''usage: '' @ ''emojipedia'')) example_descriptors [] [] =
          [[''[build [target=<string>, force=<bool>]]'', ''[find [key=<string>]]''],
           [''[build [target=<string>]]'']]"
    by code_simp
  have pad: "replicate 18 (CHR '' '') = ''                  ''"
    by code_simp
  from WrapFunction_layout [of ToLower_ascii "''emojipedia''" example_descriptors] pack
  show ?thesis by (simp add: pad)
qed

text \<open>
  Claim C8, as stated, fails for the program \<open>emojipedia\<close> with the three example
  functions: \<open>usage: emojipedia\<close> has 17 characters and the continuation line starts
  with 18 spaces.
\<close>

theorem continuation_indent_counterexample:
  "length ''usage: emojipedia'' = 17
   \<and> Split (WrapFunction ToLower_ascii ''emojipedia'' example_descriptors) (CHR 0x0A) ! 1
       = replicate 18 (CHR '' '') @ ''[build [target=<string>]]]''"
  by code_simp

section \<open>Line lengths of the usage document\<close>

text \<open>
  Claim C3 at a concrete input. The usage document of the program \<open>emojipedia\<close> with the
  example description and functions has a first description line of 87 characters made
  of ten words, and a first option line of 80 characters holding two options.
\<close>

theorem usage_lines_exceed_lineLength:
  "map_sum id (\<lambda>p. Split (prog_Use p) (CHR 0x0A))
     (NewProgram ToLower_ascii ''emojipedia'' example_description example_functions)
   = Inr [''emojipedia collects the emoji, categories, subcategories and keywords that unicode.org '',
          ''publishes '',
          [],
          ''usage: emojipedia [[build [target=<string>, force=<bool>]] [find [key=<string>]]'',
          replicate 18 (CHR '' '') @ ''[build [target=<string>]]]'']
   \<and> length ''emojipedia collects the emoji, categories, subcategories and keywords that unicode.org '' = 87
   \<and> length ''usage: emojipedia [[build [target=<string>, force=<bool>]] [find [key=<string>]]'' = 80"
  by code_simp

section \<open>The runner\<close>

lemma Runner_Get_ok_is_lookup:
  "Runner_Get ToUpper runner key = Inr (f, ok) \<Longrightarrow> ok = Functions_Has ToUpper (Runner_Functions runner) key"
  by (auto simp: Runner_Get_def Functions_Get_def Functions_Has_def
           split: option.splits sum.splits if_splits prod.splits)

text \<open>
  Claim C1 at a concrete input. With \<open>func Build(target string, force bool)\<close> and
  \<open>func Run(a int, opts ...interface{})\<close> registered, the lookup of either name returns
  \<open>ok = true\<close>, and \<open>Runner.Get\<close> returns a nil function together with \<open>ok = true\<close>
  for both.
\<close>

theorem Runner_Get_ok_for_unsupported_signatures:
  "(case NewRunner ToUpper_ascii [Build, Run2] of
      Inl e \<Rightarrow> None
    | Inr r \<Rightarrow> Some (snd (Functions_Get ToUpper_ascii (Runner_Functions r) ''build''), Runner_Get ToUpper_ascii r ''build'',
                      snd (Functions_Get ToUpper_ascii (Runner_Functions r) ''run''), Runner_Get ToUpper_ascii r ''run''))
   = Some (True, Inr (None, True), True, Inr (None, True))"
  by code_simp

section \<open>The display name\<close>

text \<open>
  With the lower-casing of ASCII letters, a display name that holds no dot is a fixed
  point: it has no letter from \<open>A\<close> to \<open>Z\<close>, and apart from the name \<open>/\<close> no separator,
  so a second pass cuts and splits nothing.
\<close>

lemma toLowerChar_not_upper: "\<not> isUpperAZ (toLowerChar c)"
  by (auto simp: toLowerChar_def isUpperAZ_def Let_def)

lemma toLowerChar_id: "\<not> isUpperAZ c \<Longrightarrow> toLowerChar c = c"
  by (simp add: toLowerChar_def)

lemma ToLower_not_upper: "c \<in> set (ToLower_ascii s) \<Longrightarrow> \<not> isUpperAZ c"
  by (auto simp: ToLower_ascii_def toLowerChar_not_upper)

lemma ToLower_id: "\<forall>c \<in> set s. \<not> isUpperAZ c \<Longrightarrow> ToLower_ascii s = s"
  by (simp add: ToLower_ascii_def toLowerChar_id map_idI)

lemma slash_not_upper: "\<not> isUpperAZ (CHR ''/'')"
  by (simp add: isUpperAZ_def)

lemma toLowerChar_slash: "toLowerChar c = CHR ''/'' \<longleftrightarrow> c = CHR ''/''"
proof
  assume a: "toLowerChar c = CHR ''/''"
  show "c = CHR ''/''"
  proof (cases "isUpperAZ c")
    case True
    then have "of_char (toLowerChar c) = (of_char c :: nat) + 32"
      by (simp add: toLowerChar_def isUpperAZ_def Let_def)
    with a True show ?thesis by (simp add: isUpperAZ_def Let_def)
  next
    case False
    with a show ?thesis by (simp add: toLowerChar_def)
  qed
next
  assume "c = CHR ''/''"
  then show "toLowerChar c = CHR ''/''" by (simp add: toLowerChar_def isUpperAZ_def)
qed

lemma FindAllString_no_upper:
  assumes "s \<noteq> []" and "\<forall>c \<in> set s. \<not> isUpperAZ c"
  shows "FindAllString s = [s]"
proof (cases s)
  case Nil
  with assms(1) show ?thesis by simp
next
  case (Cons c cs)
  with assms(2) have c: "\<not> isUpperAZ c" and cs: "\<forall>x \<in> set cs. \<not> isUpperAZ x"
    by simp_all
  from cs have tw: "takeWhile (\<lambda>x. \<not> isUpperAZ x) cs = cs"
    by simp
  from cs have dw: "dropWhile (\<lambda>x. \<not> isUpperAZ x) cs = []"
    by simp
  from c have "FindAllString (c # cs) =
                 (c # takeWhile (\<lambda>x. \<not> isUpperAZ x) cs)
                 # FindAllString (dropWhile (\<lambda>x. \<not> isUpperAZ x) cs)"
    by simp
  also have "\<dots> = [c # cs]"
    unfolding tw dw by simp
  finally show ?thesis using Cons by simp
qed

lemma concat_FindAllString: "concat (FindAllString s) = s"
  by (induction s rule: FindAllString.induct) (auto simp: Let_def)

lemma set_Join: "set (Join ts sep) \<subseteq> set (concat ts) \<union> set sep"
  by (induction ts sep rule: Join.induct) auto

lemma Base_cases:
  "Base s = ''.'' \<or> Base s = ''/'' \<or> (Base s \<noteq> [] \<and> CHR ''/'' \<notin> set (Base s))"
proof -
  have "CHR ''/'' \<notin> set (takeWhile (\<lambda>c. c \<noteq> CHR ''/'') xs)" for xs :: string
    by (auto dest: set_takeWhileD)
  then show ?thesis by (auto simp: Base_def Let_def)
qed

lemma Base_id:
  assumes "s \<noteq> []" and "CHR ''/'' \<notin> set s"
  shows "Base s = s"
proof -
  from assms have d: "dropWhile (\<lambda>c. c = CHR ''/'') (rev s) = rev s"
    by (cases "rev s") auto
  from assms(2) have t: "takeWhile (\<lambda>c. c \<noteq> CHR ''/'') (rev s) = rev s"
    by auto
  have "Base s = (if rev (rev s) = [] then ''/'' else rev (rev s))"
    unfolding Base_def Let_def d rev_rev_ident t using assms(1) by simp
  with assms(1) show ?thesis by simp
qed

lemma displayName_fixpoint:
  assumes "s \<noteq> []" "CHR ''/'' \<notin> set s" "CHR ''.'' \<notin> set s" "\<forall>c \<in> set s. \<not> isUpperAZ c"
  shows "cli_displayName ToLower_ascii s = s"
  using assms
  by (simp add: cli_displayName_def Base_id Index_def FindAllString_no_upper ToLower_id)

lemma displayName_slash: "CHR ''/'' \<in> set (cli_displayName ToLower_ascii s) \<Longrightarrow> cli_displayName ToLower_ascii s = ''/''"
proof -
  assume a: "CHR ''/'' \<in> set (cli_displayName ToLower_ascii s)"
  define n where "n = drop (nat (Index (Base s) (CHR ''.'') + 1)) (Base s)"
  define j where "j = (if length (FindAllString n) \<noteq> 0 then Join (FindAllString n) ''-'' else n)"
  have d: "cli_displayName ToLower_ascii s = ToLower_ascii j"
    by (simp add: cli_displayName_def n_def j_def Let_def)
  have "set j \<subseteq> set n \<union> {CHR ''-''}"
    using set_Join [of "FindAllString n" "''-''"] by (auto simp: j_def concat_FindAllString)
  moreover have "CHR ''/'' \<in> set j"
  proof -
    from a d obtain x where "x \<in> set j" "toLowerChar x = CHR ''/''"
      by (auto simp: ToLower_ascii_def)
    then show ?thesis by (simp add: toLowerChar_slash)
  qed
  ultimately have "CHR ''/'' \<in> set n" by auto
  then have "CHR ''/'' \<in> set (Base s)" by (auto simp: n_def dest: in_set_dropD)
  with Base_cases [of s] have "Base s = ''/''" by auto
  then show ?thesis by (simp add: d j_def n_def) code_simp
qed

lemma displayName_idempotent_without_dot:
  assumes "CHR ''.'' \<notin> set (cli_displayName ToLower_ascii s)"
  shows "cli_displayName ToLower_ascii (cli_displayName ToLower_ascii s) = cli_displayName ToLower_ascii s"
proof (cases "cli_displayName ToLower_ascii s = [] \<or> cli_displayName ToLower_ascii s = ''/''")
  case True
  have "cli_displayName ToLower_ascii [] = []" "cli_displayName ToLower_ascii ''/'' = ''/''" by code_simp+
  with True show ?thesis by auto
next
  case False
  with displayName_slash [of s] have "CHR ''/'' \<notin> set (cli_displayName ToLower_ascii s)" by auto
  moreover have "\<forall>c \<in> set (cli_displayName ToLower_ascii s). \<not> isUpperAZ c"
    by (auto simp: cli_displayName_def Let_def dest: ToLower_not_upper)
  ultimately show ?thesis using False assms by (intro displayName_fixpoint) auto
qed

text \<open>
  Claim C6 at a concrete input. The display name of the symbol \<open>main.Recv.Build\<close> is
  \<open>recv.-build\<close>, and the display name of that is \<open>-build\<close>.
\<close>

theorem displayName_not_idempotent_on_method_names:
  "cli_displayName ToLower_ascii ''main.Recv.Build'' = ''recv.-build''
   \<and> cli_displayName ToLower_ascii (cli_displayName ToLower_ascii ''main.Recv.Build'') = ''-build''"
  by code_simp

text \<open>
  Claim C7 at a concrete input. For the symbol \<open>main.Recv.Build\<close>, with two dots after
  its path base, \<open>cli.NewFunction\<close> keeps \<open>Recv.\<close> in the display name, where
  \<open>x.NewDeconstruct\<close> cuts after the last dot; with a single dot the name is as claimed.
\<close>

theorem displayName_cuts_after_first_dot:
  "cli_displayName ToLower_ascii ''main.Recv.Build'' = ''recv.-build''
   \<and> NewDeconstruct_name (Base ''main.Recv.Build'') = ''Build''
   \<and> cli_displayName ToLower_ascii ''main.Build'' = ''build''"
  by code_simp

end
